theory Spec2Isabelle
  imports Complex_Main "HOL-Library.Sublist"
begin

section \<open>Python values\<close>

text \<open>
  The citation payload is whatever \<^verbatim>\<open>json.loads\<close> returns, and the parser stores those
  values in the fields of a \<^verbatim>\<open>CitationItem\<close> without checking their type. The values are
  therefore modelled dynamically. A float is carried by the text Python prints for it
  (\<^verbatim>\<open>repr\<close>); a dict decoded from JSON has string keys and is kept as an association list
  in insertion order with distinct keys. Strings are lists of 8-bit characters; case
  mapping and the regular expressions' character classes are the ASCII ones.
\<close>

datatype pyval =
    PNone
  | PBool bool
  | PInt int
  | PFloat string
  | PStr string
  | PList "pyval list"
  | PDict "(string \<times> pyval) list"

text \<open>The exceptions that the modelled code can raise; a raise is an \<open>Inl\<close> result.\<close>

datatype py_error =
  TypeError | AttributeError | IndexError | KeyError | JSONDecodeError | RecursionError

fun truthy :: "pyval \<Rightarrow> bool" where
  "truthy PNone = False"
| "truthy (PBool b) = b"
| "truthy (PInt i) = (i \<noteq> 0)"
| "truthy (PFloat s) = (s \<noteq> ''0.0'' \<and> s \<noteq> ''-0.0'')"
| "truthy (PStr s) = (s \<noteq> [])"
| "truthy (PList xs) = (xs \<noteq> [])"
| "truthy (PDict kvs) = (kvs \<noteq> [])"

section \<open>Data model\<close>

text \<open>One row of the library, the dict built in \<^verbatim>\<open>_load_items\<close>.\<close>

record library_item =
  key :: string
  lib_title :: "string option"
  lib_doi :: "string option"
  lib_isbn :: "string option"
  lib_year :: "string option"
  lib_search_string :: string

text \<open>\<^verbatim>\<open>class CitationItem\<close>, with the values its fields really hold.\<close>

record citation_item =
  uri :: pyval
  uris :: pyval
  item_key :: "string option"
  library_id :: "string option"
  title :: pyval
  authors :: pyval
  year :: pyval
  doi :: pyval
  isbn :: pyval
  item_data :: pyval
  is_orphaned :: bool
  matched_library_item :: "library_item option"
  match_score :: rat
  match_method :: string

text \<open>The dataclass defaults: what \<^verbatim>\<open>CitationItem()\<close> constructs.\<close>

definition CitationItem :: citation_item where
  "CitationItem =
     \<lparr>uri = PNone, uris = PList [], item_key = None, library_id = None,
      title = PStr [], authors = PList [], year = PNone, doi = PNone, isbn = PNone,
      item_data = PDict [], is_orphaned = False, matched_library_item = None,
      match_score = 0, match_method = []\<rparr>"

text \<open>\<^verbatim>\<open>class Citation\<close>.\<close>

record citation =
  field_code :: string
  citation_data :: pyval
  items :: "citation_item list"
  field_index :: nat
  citation_is_orphaned :: bool

text \<open>The indexes of \<^verbatim>\<open>class ZoteroDatabase\<close>.\<close>

record zotero_db =
  db_items :: "library_item list"
  items_by_key :: "string \<rightharpoonup> library_item"
  items_by_doi :: "string \<rightharpoonup> library_item"
  items_by_isbn :: "string \<rightharpoonup> library_item"
  user_id :: "string option"
  local_user_key :: "string option"

section \<open>Strings\<close>

definition is_space :: "char \<Rightarrow> bool" where
  \<comment> \<open>\<^verbatim>\<open>str.isspace\<close> and the regular expressions' \<^verbatim>\<open>\s\<close>, on ASCII\<close>
  "is_space c = ((of_char c :: nat) \<in> {9, 10, 11, 12, 13, 28, 29, 30, 31, 32})"

definition is_digit :: "char \<Rightarrow> bool" where
  "is_digit c = (48 \<le> (of_char c :: nat) \<and> (of_char c :: nat) \<le> 57)"

definition is_upper :: "char \<Rightarrow> bool" where
  "is_upper c = (65 \<le> (of_char c :: nat) \<and> (of_char c :: nat) \<le> 90)"

definition is_lower :: "char \<Rightarrow> bool" where
  "is_lower c = (97 \<le> (of_char c :: nat) \<and> (of_char c :: nat) \<le> 122)"

definition is_alnum :: "char \<Rightarrow> bool" where
  \<comment> \<open>the class \<^verbatim>\<open>[A-Za-z0-9]\<close>\<close>
  "is_alnum c = (is_upper c \<or> is_lower c \<or> is_digit c)"

definition lower_char :: "char \<Rightarrow> char" where
  "lower_char c = (if is_upper c then char_of ((of_char c :: nat) + 32) else c)"

definition upper_char :: "char \<Rightarrow> char" where
  "upper_char c = (if is_lower c then char_of ((of_char c :: nat) - 32) else c)"

definition py_lower :: "string \<Rightarrow> string" where
  "py_lower s = map lower_char s"

definition py_upper :: "string \<Rightarrow> string" where
  "py_upper s = map upper_char s"

definition py_strip :: "string \<Rightarrow> string" where
  "py_strip s = rev (dropWhile is_space (rev (dropWhile is_space s)))"

fun py_join :: "string \<Rightarrow> string list \<Rightarrow> string" where
  "py_join sep [] = []"
| "py_join sep [x] = x"
| "py_join sep (x # y # ys) = x @ sep @ py_join sep (y # ys)"

text \<open>\<^verbatim>\<open>str(n)\<close> for an integer: decimal digits, with a minus sign.\<close>

function nat_digits :: "nat \<Rightarrow> string" where
  "nat_digits n =
     (if n < 10 then [char_of (48 + n)]
      else nat_digits (n div 10) @ [char_of (48 + n mod 10)])"
  by pat_completeness auto
termination
  by (relation "measure id") auto

definition int_str :: "int \<Rightarrow> string" where
  "int_str i = (if i < 0 then CHR ''-'' # nat_digits (nat (- i)) else nat_digits (nat i))"

text \<open>
  \<^verbatim>\<open>repr(s)\<close> for a string: single quotes, unless the string has a single quote and no
  double quote; the quote and the backslash are escaped, tab, newline and carriage return
  are written \<^verbatim>\<open>\t \n \r\<close>, other control characters as \<^verbatim>\<open>\xhh\<close>.
\<close>

definition hex_digit :: "nat \<Rightarrow> char" where
  "hex_digit n = (if n < 10 then char_of (48 + n) else char_of (87 + n))"

definition repr_char :: "char \<Rightarrow> char \<Rightarrow> string" where
  "repr_char q c =
     (let n = (of_char c :: nat) in
      if c = q \<or> n = 92 then [CHR 0x5C, c]
      else if n = 9 then [CHR 0x5C, CHR ''t'']
      else if n = 10 then [CHR 0x5C, CHR ''n'']
      else if n = 13 then [CHR 0x5C, CHR ''r'']
      else if n < 32 \<or> n = 127 then [CHR 0x5C, CHR ''x'', hex_digit (n div 16), hex_digit (n mod 16)]
      else [c])"

definition repr_str :: "string \<Rightarrow> string" where
  "repr_str s =
     (let q = (if CHR 0x27 \<in> set s \<and> CHR 0x22 \<notin> set s then CHR 0x22 else CHR 0x27)
      in q # concat (map (repr_char q) s) @ [q])"

section \<open>Operations on Python values\<close>

fun py_repr :: "pyval \<Rightarrow> string" where
  "py_repr PNone = ''None''"
| "py_repr (PBool b) = (if b then ''True'' else ''False'')"
| "py_repr (PInt i) = int_str i"
| "py_repr (PFloat s) = s"
| "py_repr (PStr s) = repr_str s"
| "py_repr (PList xs) = ''['' @ py_join '', '' (map py_repr xs) @ '']''"
| "py_repr (PDict kvs) =
     ''{'' @ py_join '', '' (map (\<lambda>kv. repr_str (fst kv) @ '': '' @ py_repr (snd kv)) kvs) @ ''}''"

definition py_str :: "pyval \<Rightarrow> string" where
  \<comment> \<open>\<^verbatim>\<open>str(v)\<close>\<close>
  "py_str v = (case v of PStr s \<Rightarrow> s | _ \<Rightarrow> py_repr v)"

text \<open>Sequencing of steps that may raise: the first exception ends the computation.\<close>

definition pbind :: "'e + 'a \<Rightarrow> ('a \<Rightarrow> 'e + 'b) \<Rightarrow> 'e + 'b" where
  "pbind m f = (case m of Inl e \<Rightarrow> Inl e | Inr x \<Rightarrow> f x)"

definition py_get :: "pyval \<Rightarrow> string \<Rightarrow> pyval \<Rightarrow> py_error + pyval" where
  \<comment> \<open>\<^verbatim>\<open>d.get(k, default)\<close>: only a dict has the method\<close>
  "py_get d k dflt =
     (case d of
        PDict kvs \<Rightarrow> Inr (case map_of kvs k of None \<Rightarrow> dflt | Some v \<Rightarrow> v)
      | _ \<Rightarrow> Inl AttributeError)"

definition py_index0 :: "pyval \<Rightarrow> py_error + pyval" where
  \<comment> \<open>\<^verbatim>\<open>v[0]\<close>; the keys of a decoded dict are strings, so \<^verbatim>\<open>0\<close> is never one\<close>
  "py_index0 v =
     (case v of
        PList [] \<Rightarrow> Inl IndexError
      | PList (x # _) \<Rightarrow> Inr x
      | PStr [] \<Rightarrow> Inl IndexError
      | PStr (c # _) \<Rightarrow> Inr (PStr [c])
      | PDict _ \<Rightarrow> Inl KeyError
      | _ \<Rightarrow> Inl TypeError)"

definition py_slice4 :: "pyval \<Rightarrow> py_error + pyval" where
  \<comment> \<open>\<^verbatim>\<open>v[:4]\<close>; a dict cannot be sliced (TypeError up to Python 3.11, KeyError from 3.12)\<close>
  "py_slice4 v =
     (case v of
        PStr s \<Rightarrow> Inr (PStr (take 4 s))
      | PList xs \<Rightarrow> Inr (PList (take 4 xs))
      | _ \<Rightarrow> Inl TypeError)"

definition py_iter :: "pyval \<Rightarrow> py_error + pyval list" where
  \<comment> \<open>what a \<^verbatim>\<open>for\<close> loop over the value visits\<close>
  "py_iter v =
     (case v of
        PList xs \<Rightarrow> Inr xs
      | PStr s \<Rightarrow> Inr (map (\<lambda>c. PStr [c]) s)
      | PDict kvs \<Rightarrow> Inr (map (\<lambda>kv. PStr (fst kv)) kvs)
      | _ \<Rightarrow> Inl TypeError)"

fun the_strs :: "pyval list \<Rightarrow> string list option" where
  "the_strs [] = Some []"
| "the_strs (PStr s # vs) = map_option ((#) s) (the_strs vs)"
| "the_strs (_ # vs) = None"

definition str_join :: "string \<Rightarrow> pyval list \<Rightarrow> py_error + string" where
  \<comment> \<open>\<^verbatim>\<open>sep.join(parts)\<close>: TypeError unless every part is a string\<close>
  "str_join sep parts =
     (case the_strs parts of None \<Rightarrow> Inl TypeError | Some ss \<Rightarrow> Inr (py_join sep ss))"

section \<open>Citation parser\<close>

text \<open>
  \<^verbatim>\<open>re.search(r'/items/([A-Za-z0-9]+)$', uri)\<close>. The search tries every start position from
  the left. At one position the literal is followed by the longest run of alphanumerics
  (a shorter run would be followed by an alphanumeric, where \<^verbatim>\<open>$\<close> cannot match), and
  \<^verbatim>\<open>$\<close> matches at the end of the string or just before a newline that ends it.
\<close>

definition match_key_at :: "string \<Rightarrow> string option" where
  "match_key_at s =
     (if prefix ''/items/'' s then
        (let r = drop 7 s; k = takeWhile is_alnum r; rest = dropWhile is_alnum r
         in if k \<noteq> [] \<and> (rest = [] \<or> rest = [CHR 0x0A]) then Some k else None)
      else None)"

fun search_key :: "string \<Rightarrow> string option" where
  "search_key [] = None"
| "search_key (c # cs) =
     (case match_key_at (c # cs) of Some k \<Rightarrow> Some k | None \<Rightarrow> search_key cs)"

text \<open>
  The loop \<^verbatim>\<open>for uri in ci.uris\<close>: the first URI that matches gives the key and ends the
  loop; \<^verbatim>\<open>re.search\<close> raises TypeError on a URI that is not a string.
\<close>

fun first_key :: "pyval list \<Rightarrow> py_error + string option" where
  "first_key [] = Inr None"
| "first_key (PStr u # us) =
     (case search_key u of Some k \<Rightarrow> Inr (Some k) | None \<Rightarrow> first_key us)"
| "first_key (_ # us) = Inl TypeError"

text \<open>
  \<^verbatim>\<open>re.search(r'ADDIN ZOTERO_ITEM CSL_CITATION\s*(\{.*\})', field_code, re.DOTALL)\<close>, giving
  group 1. After the marker and all the white space that follows it there must be an opening
  brace; the greedy \<^verbatim>\<open>.*\<close> then runs to the last closing brace of the string.
\<close>

definition CSL_MARKER :: string where
  "CSL_MARKER = ''ADDIN ZOTERO_ITEM CSL_CITATION''"

definition match_citation_at :: "string \<Rightarrow> string option" where
  "match_citation_at s =
     (if prefix CSL_MARKER s then
        (case dropWhile is_space (drop (length CSL_MARKER) s) of
           [] \<Rightarrow> None
         | c # rest \<Rightarrow>
             if c = CHR ''{'' \<and> CHR ''}'' \<in> set rest
             then Some (c # rev (dropWhile (\<lambda>x. x \<noteq> CHR ''}'') (rev rest)))
             else None)
      else None)"

fun search_citation :: "string \<Rightarrow> string option" where
  "search_citation [] = None"
| "search_citation (c # cs) =
     (case match_citation_at (c # cs) of Some g \<Rightarrow> Some g | None \<Rightarrow> search_citation cs)"

text \<open>The two statements that set \<^verbatim>\<open>ci.year\<close>, from the item's \<^verbatim>\<open>itemData\<close>.\<close>

definition parse_year :: "pyval \<Rightarrow> py_error + pyval" where
  "parse_year item_metadata =
     pbind (py_get item_metadata ''issued'' (PDict [])) (\<lambda>issued.
     pbind (py_get issued ''date-parts'' (PList [PList [PNone]])) (\<lambda>dp.
     pbind (py_index0 dp) (\<lambda>dp0.
     pbind (py_index0 dp0) (\<lambda>y.
       let year1 = py_str (if truthy y then y else PStr [])
       in if year1 \<noteq> [] then Inr (PStr year1)
          else pbind (py_get item_metadata ''date'' PNone) (\<lambda>d.
                 if truthy d
                 then pbind (py_get item_metadata ''date'' (PStr [])) py_slice4
                 else Inr (PStr []))))))"

text \<open>The body of the loop over \<^verbatim>\<open>citationItems\<close>.\<close>

definition parse_item :: "pyval \<Rightarrow> py_error + citation_item" where
  "parse_item idata =
     pbind (py_get idata ''uris'' (PList [])) (\<lambda>us.
     pbind (if truthy us then py_index0 us else Inr PNone) (\<lambda>u.
     pbind (py_iter us) (\<lambda>ulist.
     pbind (first_key ulist) (\<lambda>k.
     pbind (py_get idata ''itemData'' (PDict [])) (\<lambda>md.
     pbind (py_get md ''title'' (PStr [])) (\<lambda>t.
     pbind (parse_year md) (\<lambda>y.
     pbind (py_get md ''author'' (PList [])) (\<lambda>a.
     pbind (py_get md ''DOI'' (PStr [])) (\<lambda>d.
     pbind (py_get md ''ISBN'' (PStr [])) (\<lambda>b.
       Inr (CitationItem\<lparr>item_data := idata, uris := us, uri := u, item_key := k,
              title := t, year := y, authors := a, doi := d, isbn := b\<rparr>)))))))))))"


fun parse_items :: "pyval list \<Rightarrow> py_error + citation_item list" where
  "parse_items [] = Inr []"
| "parse_items (x # xs) =
     pbind (parse_item x) (\<lambda>ci. pbind (parse_items xs) (\<lambda>ys. Inr (ci # ys)))"

text \<open>
  \<^verbatim>\<open>Citation.from_field_code\<close>. The decoder \<^verbatim>\<open>json.loads\<close> belongs to the Python library
  and is a parameter; of its exceptions only \<^verbatim>\<open>JSONDecodeError\<close> is caught. The result
  \<open>Inr None\<close> is the return value \<^verbatim>\<open>None\<close>, \<open>Inl e\<close> is an exception that leaves the function.
\<close>

definition from_field_code ::
  "(string \<Rightarrow> py_error + pyval) \<Rightarrow> string \<Rightarrow> nat \<Rightarrow> py_error + citation option" where
  "from_field_code loads fc idx =
     (case search_citation fc of
        None \<Rightarrow> Inr None
      | Some json_str \<Rightarrow>
          (case loads json_str of
             Inl e \<Rightarrow> (if e = JSONDecodeError then Inr None else Inl e)
           | Inr cdata \<Rightarrow>
               pbind (py_get cdata ''citationItems'' (PList [])) (\<lambda>raw.
               pbind (py_iter raw) (\<lambda>xs.
               pbind (parse_items xs) (\<lambda>its.
                 Inr (Some \<lparr>field_code = fc, citation_data = cdata, items = its,
                            field_index = idx, citation_is_orphaned = False\<rparr>))))))"

section \<open>Orphan classifier\<close>

text \<open>
  \<^verbatim>\<open>check_orphaned_status\<close>. The test \<^verbatim>\<open>item.item_key and item.item_key in db.items_by_key\<close>
  is a truth test on an optional string: \<^verbatim>\<open>None\<close> and the empty string both fail it.
\<close>

definition linked :: "zotero_db \<Rightarrow> citation_item \<Rightarrow> bool" where
  "linked db item =
     (case item_key item of
        None \<Rightarrow> False
      | Some k \<Rightarrow> k \<noteq> [] \<and> items_by_key db k \<noteq> None)"

definition check_item :: "zotero_db \<Rightarrow> citation_item \<Rightarrow> citation_item" where
  "check_item db item =
     (if linked db item then item\<lparr>is_orphaned := False\<rparr> else item\<lparr>is_orphaned := True\<rparr>)"



section \<open>Field-code extractor\<close>

text \<open>
  \<^verbatim>\<open>root.iter()\<close> visits the elements of the document in document order; an element is
  modelled by what the loop reads of it: its tag, its attributes and its text.
\<close>

record xml_elem =
  elem_tag :: string
  elem_attrib :: "(string \<times> string) list"
  elem_text :: "string option"

definition W_NS :: string where
  "W_NS = ''http://schemas.openxmlformats.org/wordprocessingml/2006/main''"

definition w_name :: "string \<Rightarrow> string" where
  \<comment> \<open>the qualified name \<^verbatim>\<open>f"{{{NAMESPACES['w']}}}name"\<close>\<close>
  "w_name n = ''{'' @ W_NS @ ''}'' @ n"

text \<open>The local variables of \<^verbatim>\<open>extract_citations_from_docx\<close>.\<close>

record extract_state =
  citations :: "citation list"
  next_index :: nat
  current_field :: "string list"
  in_field :: bool

definition extract_init :: extract_state where
  "extract_init = \<lparr>citations = [], next_index = 0, current_field = [], in_field = False\<rparr>"

text \<open>One iteration of the loop over the elements.\<close>

definition extract_step ::
  "(string \<Rightarrow> py_error + pyval) \<Rightarrow> extract_state \<Rightarrow> xml_elem \<Rightarrow> py_error + extract_state" where
  "extract_step loads st el =
     (if elem_tag el = w_name ''fldChar'' then
        (let fld_type = map_of (elem_attrib el) (w_name ''fldCharType'') in
         if fld_type = Some ''begin'' then Inr (st\<lparr>in_field := True, current_field := []\<rparr>)
         else if fld_type = Some ''end'' \<and> in_field st then
           (let fc = concat (current_field st) in
            if sublist ''ADDIN ZOTERO_ITEM'' fc then
              (case from_field_code loads fc (next_index st) of
                 Inl e \<Rightarrow> Inl e
               | Inr None \<Rightarrow> Inr (st\<lparr>in_field := False, current_field := []\<rparr>)
               | Inr (Some c) \<Rightarrow>
                   Inr (st\<lparr>in_field := False, current_field := [],
                           citations := citations st @ [c],
                           next_index := next_index st + 1\<rparr>))
            else Inr (st\<lparr>in_field := False, current_field := []\<rparr>))
         else Inr st)
      else if in_field st \<and> elem_tag el = w_name ''instrText'' then
        (case elem_text el of
           None \<Rightarrow> Inr st
         | Some t \<Rightarrow> if t \<noteq> [] then Inr (st\<lparr>current_field := current_field st @ [t]\<rparr>) else Inr st)
      else Inr st)"

fun extract_loop ::
  "(string \<Rightarrow> py_error + pyval) \<Rightarrow> extract_state \<Rightarrow> xml_elem list \<Rightarrow> py_error + extract_state" where
  "extract_loop loads st [] = Inr st"
| "extract_loop loads st (el # els) =
     (case extract_step loads st el of Inl e \<Rightarrow> Inl e | Inr st' \<Rightarrow> extract_loop loads st' els)"

definition extract_citations ::
  "(string \<Rightarrow> py_error + pyval) \<Rightarrow> xml_elem list \<Rightarrow> py_error + citation list" where
  "extract_citations loads els =
     (case extract_loop loads extract_init els of Inl e \<Rightarrow> Inl e | Inr st \<Rightarrow> Inr (citations st))"

definition field_begin :: "xml_elem \<Rightarrow> bool" where
  "field_begin el =
     (elem_tag el = w_name ''fldChar''
      \<and> map_of (elem_attrib el) (w_name ''fldCharType'') = Some ''begin'')"

definition field_end :: "xml_elem \<Rightarrow> bool" where
  "field_end el =
     (elem_tag el = w_name ''fldChar''
      \<and> map_of (elem_attrib el) (w_name ''fldCharType'') = Some ''end'')"

section \<open>Library index\<close>

text \<open>
  The end of the loop body of \<^verbatim>\<open>_load_items\<close>, which files one finished row under its key,
  its DOI and its ISBN; \<^verbatim>\<open>re.sub(r'[^0-9X]', '', s.upper())\<close> keeps the digits and \<^verbatim>\<open>X\<close>.
\<close>

definition normalize_doi :: "string \<Rightarrow> string" where
  "normalize_doi d = py_strip (py_lower d)"

definition normalize_isbn :: "string \<Rightarrow> string" where
  "normalize_isbn b = filter (\<lambda>c. is_digit c \<or> c = CHR ''X'') (py_upper b)"

definition some_nonempty :: "string option \<Rightarrow> bool" where
  \<comment> \<open>the truth test \<^verbatim>\<open>if item.get(k):\<close> on a column that is a string or NULL\<close>
  "some_nonempty v = (case v of None \<Rightarrow> False | Some s \<Rightarrow> s \<noteq> [])"

definition index_item :: "zotero_db \<Rightarrow> library_item \<Rightarrow> zotero_db" where
  "index_item db it =
     (let db1 = db\<lparr>db_items := db_items db @ [it],
                   items_by_key := (items_by_key db)(key it \<mapsto> it)\<rparr>;
          db2 = (if some_nonempty (lib_doi it)
                 then db1\<lparr>items_by_doi := (items_by_doi db1)(normalize_doi (the (lib_doi it)) \<mapsto> it)\<rparr>
                 else db1)
      in if some_nonempty (lib_isbn it)
         then db2\<lparr>items_by_isbn := (items_by_isbn db2)(normalize_isbn (the (lib_isbn it)) \<mapsto> it)\<rparr>
         else db2)"

definition empty_db :: "string option \<Rightarrow> string option \<Rightarrow> zotero_db" where
  "empty_db uid luk =
     \<lparr>db_items = [], items_by_key = Map.empty, items_by_doi = Map.empty,
      items_by_isbn = Map.empty, user_id = uid, local_user_key = luk\<rparr>"

definition load_items :: "string option \<Rightarrow> string option \<Rightarrow> library_item list \<Rightarrow> zotero_db" where
  "load_items uid luk rows = foldl index_item (empty_db uid luk) rows"

section \<open>Matching engine\<close>

text \<open>\<^verbatim>\<open>CitationItem.author_string\<close> and \<^verbatim>\<open>CitationItem.search_string\<close>.\<close>

fun author_part :: "pyval \<Rightarrow> pyval list" where
  "author_part (PDict kvs) =
     (case map_of kvs ''family'' of
        Some v \<Rightarrow> [v]
      | None \<Rightarrow> (case map_of kvs ''literal'' of Some v \<Rightarrow> [v] | None \<Rightarrow> []))"
| "author_part (PStr s) = [PStr s]"
| "author_part _ = []"

definition author_string :: "citation_item \<Rightarrow> py_error + string" where
  "author_string item =
     (case py_iter (authors item) of
        Inl e \<Rightarrow> Inl e
      | Inr as \<Rightarrow> str_join '' '' (concat (map author_part as)))"

definition search_string :: "citation_item \<Rightarrow> py_error + string" where
  "search_string item =
     (case author_string item of
        Inl e \<Rightarrow> Inl e
      | Inr a \<Rightarrow>
          str_join '' ''
            (filter truthy
              ([title item, PStr a]
               @ (if truthy (year item) then [PStr (py_str (year item))] else []))))"

text \<open>
  \<^verbatim>\<open>rapidfuzz.process.extractOne(query, choices, scorer=...)\<close> belongs to the rapidfuzz
  library; the scorer is a parameter and the scan is modelled as the library documents it:
  the choices are scored in order, a choice replaces the best so far only with a strictly
  higher score (the first of equal scores wins), a score below the worst score \<open>0\<close> is
  never accepted, and the scan stops at the optimal score \<open>100\<close>. The result is the
  choice, its score and its position, or \<^verbatim>\<open>None\<close>.
\<close>

fun extract_scan ::
  "(string \<Rightarrow> string \<Rightarrow> rat) \<Rightarrow> string \<Rightarrow> string list \<Rightarrow> nat \<Rightarrow> (string \<times> rat \<times> nat) option
     \<Rightarrow> (string \<times> rat \<times> nat) option" where
  "extract_scan sc q [] i best = best"
| "extract_scan sc q (c # cs) i best =
     (let s = sc q c;
          best' = (if (case best of None \<Rightarrow> 0 \<le> s | Some b \<Rightarrow> fst (snd b) < s)
                   then Some (c, s, i) else best)
      in if s = 100 then best' else extract_scan sc q cs (Suc i) best')"

definition extractOne ::
  "(string \<Rightarrow> string \<Rightarrow> rat) \<Rightarrow> string \<Rightarrow> string list \<Rightarrow> (string \<times> rat \<times> nat) option" where
  "extractOne sc q choices = extract_scan sc q choices 0 None"

text \<open>
  \<^verbatim>\<open>ZoteroDatabase.find_match\<close>. The function writes \<^verbatim>\<open>match_method\<close> and \<^verbatim>\<open>match_score\<close>
  into the item it is given, so the model returns the item as the call leaves it together
  with the outcome: \<open>Inr (Some r)\<close> for a returned record, \<open>Inr None\<close> for \<^verbatim>\<open>None\<close>,
  \<open>Inl e\<close> for an exception.
\<close>

definition title_stage ::
  "(string \<Rightarrow> string \<Rightarrow> rat) \<Rightarrow> zotero_db \<Rightarrow> citation_item
     \<Rightarrow> citation_item \<times> (py_error + library_item option)" where
  "title_stage sc db item =
     (if truthy (title item) then
        (case title item of
           PStr t \<Rightarrow>
             (let title_choices =
                    map (\<lambda>it. (the (lib_title it), key it))
                      (filter (\<lambda>it. some_nonempty (lib_title it)) (db_items db))
              in case extractOne sc t (map fst title_choices) of
                   None \<Rightarrow> (item, Inr None)
                 | Some res \<Rightarrow>
                     if 90 \<le> fst (snd res) then
                       (if snd (snd res) < length title_choices then
                          (let match_key = snd (title_choices ! snd (snd res));
                               item' = item\<lparr>match_method := ''title_only'',
                                            match_score := fst (snd res)\<rparr>
                           in case items_by_key db match_key of
                                None \<Rightarrow> (item', Inl KeyError)
                              | Some r \<Rightarrow> (item', Inr (Some r)))
                        else (item, Inl IndexError))
                     else (item, Inr None))
         | _ \<Rightarrow> (item, Inl TypeError))
      else (item, Inr None))"

definition fuzzy_stage ::
  "(string \<Rightarrow> string \<Rightarrow> rat) \<Rightarrow> zotero_db \<Rightarrow> citation_item \<Rightarrow> int
     \<Rightarrow> citation_item \<times> (py_error + library_item option)" where
  "fuzzy_stage sc db item threshold =
     (case search_string item of
        Inl e \<Rightarrow> (item, Inl e)
      | Inr search_str \<Rightarrow>
          if py_strip search_str = [] then (item, Inr None)
          else
            (let choices = map (\<lambda>it. (lib_search_string it, key it)) (db_items db) in
             if choices = [] then (item, Inr None)
             else
               (case extractOne sc search_str (map fst choices) of
                  None \<Rightarrow> title_stage sc db item
                | Some res \<Rightarrow>
                    if of_int threshold \<le> fst (snd res) then
                      (if snd (snd res) < length choices then
                         (let match_key = snd (choices ! snd (snd res));
                              item' = item\<lparr>match_method := ''fuzzy'',
                                           match_score := fst (snd res)\<rparr>
                          in case items_by_key db match_key of
                               None \<Rightarrow> (item', Inl KeyError)
                             | Some r \<Rightarrow> (item', Inr (Some r)))
                       else (item, Inl IndexError))
                    else title_stage sc db item)))"

definition isbn_stage ::
  "(string \<Rightarrow> string \<Rightarrow> rat) \<Rightarrow> zotero_db \<Rightarrow> citation_item \<Rightarrow> int
     \<Rightarrow> citation_item \<times> (py_error + library_item option)" where
  "isbn_stage sc db item threshold =
     (if truthy (isbn item) then
        (case isbn item of
           PStr b \<Rightarrow>
             (case items_by_isbn db (normalize_isbn b) of
                Some r \<Rightarrow> (item\<lparr>match_method := ''ISBN'', match_score := 100\<rparr>, Inr (Some r))
              | None \<Rightarrow> fuzzy_stage sc db item threshold)
         | _ \<Rightarrow> (item, Inl AttributeError))
      else fuzzy_stage sc db item threshold)"

definition find_match ::
  "(string \<Rightarrow> string \<Rightarrow> rat) \<Rightarrow> zotero_db \<Rightarrow> citation_item \<Rightarrow> int
     \<Rightarrow> citation_item \<times> (py_error + library_item option)" where
  "find_match sc db item threshold =
     (if truthy (doi item) then
        (case doi item of
           PStr d \<Rightarrow>
             (case items_by_doi db (normalize_doi d) of
                Some r \<Rightarrow> (item\<lparr>match_method := ''DOI'', match_score := 100\<rparr>, Inr (Some r))
              | None \<Rightarrow> isbn_stage sc db item threshold)
         | _ \<Rightarrow> (item, Inl AttributeError))
      else isbn_stage sc db item threshold)"

section \<open>Identifier rewriter\<close>





section \<open>Specification-side notions\<close>

text \<open>
  Follows the spec's words for the key pattern, \<^verbatim>\<open>/items/<alnum>\<close> at string end: the run of
  alphanumerics that ends the URI, when it is not empty and \<^verbatim>\<open>/items/\<close> stands before it.
\<close>

definition key_at_end :: "string \<Rightarrow> string option" where
  "key_at_end u =
     (let k = rev (takeWhile is_alnum (rev u)); p = rev (dropWhile is_alnum (rev u))
      in if k \<noteq> [] \<and> suffix ''/items/'' p then Some k else None)"

text \<open>
  The relation between a URI and the key the regular expression captures in it: the URI ends
  with \<^verbatim>\<open>/items/\<close> and the key, where one newline may follow the key and end the string.
\<close>

definition trailing_key :: "string \<Rightarrow> string \<Rightarrow> bool" where
  "trailing_key u k =
     (k \<noteq> [] \<and> list_all is_alnum k
      \<and> (suffix (''/items/'' @ k) u \<or> suffix (''/items/'' @ k @ [CHR 0x0A]) u))"

definition chomp :: "string \<Rightarrow> string" where
  \<comment> \<open>the string without the newline that ends it, if one does\<close>
  "chomp u = (if u \<noteq> [] \<and> last u = CHR 0x0A then butlast u else u)"

section \<open>A JSON decoder for the examples\<close>

text \<open>
  \<^verbatim>\<open>json.loads\<close> is code of the Python library, and every general statement below holds for
  any decoder. The closed examples need the decoded form of a concrete text; they use the
  decoder below, a recursive descent over the JSON grammar restricted to objects, arrays,
  strings with the one-letter escapes, integers and the three literals. A number with a
  fraction or an exponent and a \<^verbatim>\<open>\u\<close> escape are outside this fragment (the decoder
  rejects them, the library does not); no example uses them. A repeated key keeps its
  first position and takes the last value, as in a Python dict. The fuel bounds the number
  of nested calls by the length of the text.
\<close>

definition json_ws :: "char \<Rightarrow> bool" where
  "json_ws c = ((of_char c :: nat) \<in> {9, 10, 13, 32})"

fun json_string :: "string \<Rightarrow> (string \<times> string) option" where
  "json_string [] = None"
| "json_string (c # cs) =
     (if c = CHR 0x22 then Some ([], cs)
      else if c = CHR 0x5C then
        (case cs of
           [] \<Rightarrow> None
         | e # r \<Rightarrow>
             (case map_of [(CHR 0x22, CHR 0x22), (CHR 0x5C, CHR 0x5C), (CHR ''/'', CHR ''/''),
                           (CHR ''b'', CHR 0x08), (CHR ''f'', CHR 0x0C), (CHR ''n'', CHR 0x0A),
                           (CHR ''r'', CHR 0x0D), (CHR ''t'', CHR 0x09)] e of
                None \<Rightarrow> None
              | Some x \<Rightarrow> map_option (\<lambda>p. (x # fst p, snd p)) (json_string r)))
      else if (of_char c :: nat) < 32 then None
      else map_option (\<lambda>p. (c # fst p, snd p)) (json_string cs))"

definition digits_val :: "string \<Rightarrow> int" where
  "digits_val ds = foldl (\<lambda>a c. 10 * a + (int (of_char c) - 48)) 0 ds"

definition json_number :: "string \<Rightarrow> (pyval \<times> string) option" where
  "json_number s =
     (let neg = (s \<noteq> [] \<and> hd s = CHR ''-'');
          t = (if neg then tl s else s);
          ds = takeWhile is_digit t;
          r = dropWhile is_digit t
      in if ds = [] \<or> (length ds > 1 \<and> hd ds = CHR ''0'') then None
         else if r \<noteq> [] \<and> hd r \<in> {CHR ''.'', CHR ''e'', CHR ''E''} then None
         else Some (PInt (if neg then - digits_val ds else digits_val ds), r))"

definition dict_set :: "(string \<times> pyval) list \<Rightarrow> string \<Rightarrow> pyval \<Rightarrow> (string \<times> pyval) list" where
  "dict_set kvs k v =
     (if k \<in> fst ` set kvs then map (\<lambda>kv. if fst kv = k then (k, v) else kv) kvs
      else kvs @ [(k, v)])"

fun json_value :: "nat \<Rightarrow> string \<Rightarrow> (pyval \<times> string) option"
  and json_elems :: "nat \<Rightarrow> pyval list \<Rightarrow> string \<Rightarrow> (pyval \<times> string) option"
  and json_members :: "nat \<Rightarrow> (string \<times> pyval) list \<Rightarrow> string \<Rightarrow> (pyval \<times> string) option"
where
  "json_value 0 s = None"
| "json_value (Suc n) s =
     (case dropWhile json_ws s of
        [] \<Rightarrow> None
      | c # r \<Rightarrow>
          if c = CHR ''{'' then
            (case dropWhile json_ws r of
               [] \<Rightarrow> None
             | c' # r' \<Rightarrow> if c' = CHR ''}'' then Some (PDict [], r') else json_members n [] r)
          else if c = CHR ''['' then
            (case dropWhile json_ws r of
               [] \<Rightarrow> None
             | c' # r' \<Rightarrow> if c' = CHR '']'' then Some (PList [], r') else json_elems n [] r)
          else if c = CHR 0x22 then map_option (\<lambda>p. (PStr (fst p), snd p)) (json_string r)
          else if prefix ''true'' (c # r) then Some (PBool True, drop 4 (c # r))
          else if prefix ''false'' (c # r) then Some (PBool False, drop 5 (c # r))
          else if prefix ''null'' (c # r) then Some (PNone, drop 4 (c # r))
          else json_number (c # r))"
| "json_elems 0 acc s = None"
| "json_elems (Suc n) acc s =
     (case json_value n s of
        None \<Rightarrow> None
      | Some (v, r) \<Rightarrow>
          (case dropWhile json_ws r of
             [] \<Rightarrow> None
           | c # r' \<Rightarrow>
               if c = CHR '','' then json_elems n (acc @ [v]) r'
               else if c = CHR '']'' then Some (PList (acc @ [v]), r')
               else None))"
| "json_members 0 acc s = None"
| "json_members (Suc n) acc s =
     (case dropWhile json_ws s of
        [] \<Rightarrow> None
      | q # r \<Rightarrow>
          if q \<noteq> CHR 0x22 then None
          else
            (case json_string r of
               None \<Rightarrow> None
             | Some (k, r1) \<Rightarrow>
                 (case dropWhile json_ws r1 of
                    [] \<Rightarrow> None
                  | c # r2 \<Rightarrow>
                      if c \<noteq> CHR '':'' then None
                      else
                        (case json_value n r2 of
                           None \<Rightarrow> None
                         | Some (v, r3) \<Rightarrow>
                             (case dropWhile json_ws r3 of
                                [] \<Rightarrow> None
                              | c' # r4 \<Rightarrow>
                                  if c' = CHR '','' then json_members n (dict_set acc k v) r4
                                  else if c' = CHR ''}'' then Some (PDict (dict_set acc k v), r4)
                                  else None)))))"

definition json_loads :: "string \<Rightarrow> py_error + pyval" where
  "json_loads s =
     (case json_value (Suc (length s)) s of
        None \<Rightarrow> Inl JSONDecodeError
      | Some (v, r) \<Rightarrow> if dropWhile json_ws r = [] then Inr v else Inl JSONDecodeError)"

definition dq :: "string \<Rightarrow> string" where
  \<comment> \<open>the text between double quotes\<close>
  "dq s = CHR 0x22 # s @ [CHR 0x22]"

section \<open>The payload schema of the spec\<close>










section \<open>Example inputs\<close>

definition ex_record :: library_item where
  "ex_record =
     \<lparr>key = ''WXYZ6789'', lib_title = Some ''A Theory of Everything'',
      lib_doi = Some ''10.1/xyz'', lib_isbn = None, lib_year = Some ''2020'',
      lib_search_string = ''A Theory of Everything Smith 2020''\<rparr>"

definition ex_uris_item :: pyval where
  "ex_uris_item =
     PDict [(''uris'', PList [PStr ''http://example.org/paper'',
                              PStr ''http://zotero.org/users/1/items/ABCD2345'',
                              PStr ''http://zotero.org/users/1/items/WXYZ6789''])]"

definition ex_uris_parsed :: citation_item where
  "ex_uris_parsed =
     \<lparr>uri = PStr ''http://example.org/paper'',
      uris = PList [PStr ''http://example.org/paper'',
                    PStr ''http://zotero.org/users/1/items/ABCD2345'',
                    PStr ''http://zotero.org/users/1/items/WXYZ6789''],
      item_key = Some ''ABCD2345'', library_id = None, title = PStr [],
      authors = PList [], year = PStr [], doi = PStr [], isbn = PStr [],
      item_data = ex_uris_item, is_orphaned = False, matched_library_item = None,
      match_score = 0, match_method = []\<rparr>"

definition ex_newline_uri :: string where
  "ex_newline_uri = ''http://zotero.org/users/1/items/ABCD2345'' @ [CHR 0x0A]"

definition ex_date_field :: string where
  "ex_date_field =
     ''ADDIN ZOTERO_ITEM CSL_CITATION {'' @ dq ''citationItems'' @ '': [{'' @ dq ''itemData''
       @ '': {'' @ dq ''date'' @ '': '' @ dq ''May 2020'' @ ''}}]}''"

definition ex_field :: string where
  "ex_field =
     ''ADDIN ZOTERO_ITEM CSL_CITATION {'' @ dq ''citationItems'' @ '': [{'' @ dq ''uris''
       @ '': ['' @ dq ''http://zotero.org/users/1/items/ABCD2345'' @ ''], '' @ dq ''itemData''
       @ '': {'' @ dq ''title'' @ '': '' @ dq ''A Theory'' @ '', '' @ dq ''issued''
       @ '': {'' @ dq ''date-parts'' @ '': [[2020, 5]]}}}]}''"






definition ex_begin :: xml_elem where
  "ex_begin = \<lparr>elem_tag = w_name ''fldChar'',
               elem_attrib = [(w_name ''fldCharType'', ''begin'')], elem_text = None\<rparr>"

definition ex_end :: xml_elem where
  "ex_end = \<lparr>elem_tag = w_name ''fldChar'',
             elem_attrib = [(w_name ''fldCharType'', ''end'')], elem_text = None\<rparr>"

definition ex_instr :: "string \<Rightarrow> xml_elem" where
  "ex_instr t = \<lparr>elem_tag = w_name ''instrText'', elem_attrib = [], elem_text = Some t\<rparr>"

text \<open>
  A stand-in for the library's scorer in the closed examples: the scores it gives on the
  strings of the examples, and 0 for a query without a token.
\<close>

definition ex_scorer :: "string \<Rightarrow> string \<Rightarrow> rat" where
  "ex_scorer q c =
     (if py_strip q = [] then 0
      else if c = ''A Theory of Everything'' then 92
      else if c = ''A Theory of Everything Smith 2020'' then 75
      else 0)"

definition ex_book :: library_item where
  "ex_book =
     \<lparr>key = ''BOOK0001'', lib_title = Some ''Error Control Coding'', lib_doi = None,
      lib_isbn = Some ''ISBN 0-306-40615-X'', lib_year = Some ''1983'',
      lib_search_string = ''Error Control Coding Lin 1983''\<rparr>"

definition ex_junk :: library_item where
  "ex_junk =
     \<lparr>key = ''JUNK0001'', lib_title = None, lib_doi = None, lib_isbn = Some ''n/a'',
      lib_year = None, lib_search_string = ''None  None''\<rparr>"

definition ex_db :: zotero_db where
  "ex_db = load_items None None [ex_record, ex_book]"

definition ex_junk_db :: zotero_db where
  "ex_junk_db = load_items None None [ex_junk]"


definition ex_isbn_item :: citation_item where
  "ex_isbn_item = CitationItem\<lparr>doi := PStr [], isbn := PStr ''0-306-40615-x''\<rparr>"

definition ex_blank_item :: citation_item where
  "ex_blank_item = CitationItem\<lparr>doi := PStr [], isbn := PStr [], year := PStr []\<rparr>"


section \<open>Notions for the matching claims\<close>

text \<open>
  Follow the spec's words. No DOI hit: the item's DOI is empty, or its normalized form is
  not a key of the DOI index; likewise for the ISBN.
\<close>

definition no_doi_hit :: "zotero_db \<Rightarrow> citation_item \<Rightarrow> bool" where
  "no_doi_hit db item =
     (case doi item of
        PStr d \<Rightarrow> d = [] \<or> items_by_doi db (normalize_doi d) = None
      | v \<Rightarrow> \<not> truthy v)"


text \<open>
  The key index files every record of the library under its key, as \<^verbatim>\<open>_load_items\<close>
  leaves it when the keys of the library are distinct.
\<close>

definition key_index_ok :: "zotero_db \<Rightarrow> bool" where
  "key_index_ok db = list_all (\<lambda>x. items_by_key db (key x) = Some x) (db_items db)"


text \<open>The library records that have a title, which are the choices of the title-only scan.\<close>

definition titled_items :: "zotero_db \<Rightarrow> library_item list" where
  "titled_items db = filter (\<lambda>it. some_nonempty (lib_title it)) (db_items db)"

text \<open>
  The outcomes a call of \<^verbatim>\<open>find_match\<close> can have: it returns \<^verbatim>\<open>None\<close> or raises with the
  item as it was, or it returns a record with the two match fields written; a KeyError
  after the two fields were written needs a key index that misses a record of the library.
\<close>

definition outcome_shape :: "zotero_db \<Rightarrow> citation_item \<Rightarrow> citation_item \<times> (py_error + library_item option) \<Rightarrow> bool" where
  "outcome_shape db item res \<longleftrightarrow>
     res = (item, Inr None) \<or> (\<exists>e. res = (item, Inl e))
     \<or> (\<exists>m s r. res = (item\<lparr>match_method := m, match_score := s\<rparr>, Inr (Some r)))
     \<or> (\<not> key_index_ok db \<and> (\<exists>m s. res = (item\<lparr>match_method := m, match_score := s\<rparr>, Inl KeyError)))"

section \<open>Notions for the rewriting claim\<close>


section \<open>Properties of the orphan classifier\<close>

lemma check_item_key [simp]: "item_key (check_item db item) = item_key item"
  by (simp add: check_item_def)

lemma linked_check_item [simp]: "linked db (check_item db item) = linked db item"
  by (simp add: linked_def)







section \<open>The key pattern\<close>

lemma not_alnum_slash: "\<not> is_alnum CHR ''/''" "\<not> is_alnum CHR 0x0A"
  by (simp_all add: is_alnum_def is_upper_def is_lower_def is_digit_def)

lemma takeWhile_run:
  "list_all P xs \<Longrightarrow> ys = [] \<or> \<not> P (hd ys) \<Longrightarrow> takeWhile P (xs @ ys) = xs"
  by (induction xs) (auto, cases ys, auto)

lemma dropWhile_run:
  "list_all P xs \<Longrightarrow> ys = [] \<or> \<not> P (hd ys) \<Longrightarrow> dropWhile P (xs @ ys) = ys"
  by (induction xs) (auto, cases ys, auto)

lemma list_all_takeWhile: "list_all P (takeWhile P xs)"
  by (induction xs) auto

lemma match_key_at_Some:
  assumes "match_key_at s = Some k"
  shows "k \<noteq> [] \<and> list_all is_alnum k \<and> (s = ''/items/'' @ k \<or> s = ''/items/'' @ k @ [CHR 0x0A])"
proof -
  from assms have p: "prefix ''/items/'' s"
    by (simp add: match_key_at_def split: if_splits)
  then obtain r where s: "s = ''/items/'' @ r" by (auto simp: prefix_def)
  from assms s have k: "k = takeWhile is_alnum r" "k \<noteq> []"
      and d: "dropWhile is_alnum r = [] \<or> dropWhile is_alnum r = [CHR 0x0A]"
    by (auto simp: match_key_at_def Let_def split: if_splits
        simp del: dropWhile_eq_Nil_conv takeWhile_eq_all_conv)
  have a: "list_all is_alnum k" unfolding k by (rule list_all_takeWhile)
  have id: "r = k @ dropWhile is_alnum r" unfolding k by (rule takeWhile_dropWhile_id[symmetric])
  from d have "r = k \<or> r = k @ [CHR 0x0A]"
  proof
    assume "dropWhile is_alnum r = []"
    with id have "r = k @ []" by (simp only:)
    then show ?thesis by (simp only: append_Nil2 simp_thms)
  next
    assume "dropWhile is_alnum r = [CHR 0x0A]"
    with id have "r = k @ [CHR 0x0A]" by (simp only:)
    then show ?thesis by (simp only: simp_thms)
  qed
  with s have "s = ''/items/'' @ k \<or> s = ''/items/'' @ k @ [CHR 0x0A]" by blast
  with k(2) a show ?thesis by blast
qed

lemma match_key_at_here:
  assumes "k \<noteq> []" "list_all is_alnum k" "r = [] \<or> r = [CHR 0x0A]"
  shows "match_key_at (''/items/'' @ k @ r) = Some k"
proof -
  from assms(3) have r: "r = [] \<or> \<not> is_alnum (hd r)" by (auto simp: not_alnum_slash)
  have "takeWhile is_alnum (k @ r) = k" "dropWhile is_alnum (k @ r) = r"
    using takeWhile_run[OF assms(2) r] dropWhile_run[OF assms(2) r] by simp_all
  then show ?thesis using assms(1,3)
    by (simp add: match_key_at_def Let_def del: dropWhile_eq_Nil_conv takeWhile_eq_all_conv)
qed

lemma search_key_Some: "search_key u = Some k \<Longrightarrow> trailing_key u k"
proof (induction u)
  case Nil then show ?case by simp
next
  case (Cons c cs)
  show ?case
  proof (cases "match_key_at (c # cs)")
    case None
    with Cons have "trailing_key cs k" by simp
    then show ?thesis by (auto simp: trailing_key_def suffix_Cons)
  next
    case (Some k')
    with Cons.prems have "k' = k" by simp
    with match_key_at_Some[OF Some] show ?thesis
      by (auto simp: trailing_key_def)
  qed
qed

lemma trailing_key_run:
  assumes "trailing_key u k"
  shows "k = rev (takeWhile is_alnum (rev (chomp u)))"
proof -
  from assms have k: "k \<noteq> []" "list_all is_alnum k" by (auto simp: trailing_key_def)
  then have rk: "list_all is_alnum (rev k)" by (simp add: list_all_iff)
  have run: "takeWhile is_alnum (rev (p @ ''/items/'' @ k)) = rev k" for p
  proof -
    have "rev (p @ ''/items/'' @ k) = rev k @ (CHR ''/'' # rev (p @ ''/items''))" by simp
    moreover have "takeWhile is_alnum (rev k @ (CHR ''/'' # rev (p @ ''/items''))) = rev k"
      by (rule takeWhile_run[OF rk]) (simp add: not_alnum_slash)
    ultimately show ?thesis by (simp only:)
  qed
  from assms consider p where "u = p @ ''/items/'' @ k" | p where "u = p @ ''/items/'' @ k @ [CHR 0x0A]"
    by (auto simp: trailing_key_def suffix_def)
  then show ?thesis
  proof cases
    case 1
    from k have "is_alnum (last k)" by (simp add: list_all_iff)
    moreover from 1 k have "last u = last k" by simp
    ultimately have "last u \<noteq> CHR 0x0A" using not_alnum_slash(2) by metis
    then have "chomp u = u" by (simp add: chomp_def)
    with 1 have "rev (chomp u) = rev (p @ ''/items/'' @ k)" by (simp only:)
    then show ?thesis using run[of p] by (simp only: rev_rev_ident)
  next
    case 2
    then have "chomp u = p @ ''/items/'' @ k"
      by (simp add: chomp_def butlast_append)
    then have "rev (chomp u) = rev (p @ ''/items/'' @ k)" by (simp only:)
    then show ?thesis using run[of p] by (simp only: rev_rev_ident)
  qed
qed

lemma trailing_key_unique: "trailing_key u k \<Longrightarrow> trailing_key u k' \<Longrightarrow> k = k'"
  using trailing_key_run by metis

lemma search_key_found:
  assumes t: "trailing_key u k"
  shows "search_key u \<noteq> None"
proof -
  from t have k: "k \<noteq> []" "list_all is_alnum k" by (auto simp: trailing_key_def)
  have *: "search_key (p @ ''/items/'' @ k @ r) \<noteq> None" if r: "r = [] \<or> r = [CHR 0x0A]" for p r
  proof (induction p)
    case Nil
    have "search_key (''/items/'' @ k @ r) = Some k"
      using match_key_at_here[OF k r] by simp
    then show ?case by simp
  next
    case (Cons c p)
    then show ?case by (auto split: option.splits)
  qed
  from t consider p where "u = p @ ''/items/'' @ k @ []" | p where "u = p @ ''/items/'' @ k @ [CHR 0x0A]"
    by (auto simp: trailing_key_def suffix_def)
  then show ?thesis
  proof cases
    case 1 then show ?thesis using *[where p=p and r="[]"] by simp
  next
    case 2 then show ?thesis using *[where p=p and r="[CHR 0x0A]"] by simp
  qed
qed

lemma search_key_iff: "search_key u = Some k \<longleftrightarrow> trailing_key u k"
proof
  assume "search_key u = Some k" then show "trailing_key u k" by (rule search_key_Some)
next
  assume t: "trailing_key u k"
  from search_key_found[OF t] obtain k' where k': "search_key u = Some k'" by auto
  from trailing_key_unique[OF search_key_Some[OF k'] t] k' show "search_key u = Some k" by simp
qed

section \<open>The citation parser: item keys\<close>

lemma pbind_Inr_iff: "pbind m f = Inr y \<longleftrightarrow> (\<exists>x. m = Inr x \<and> f x = Inr y)"
  by (cases m) (simp_all add: pbind_def)


lemma pbind_Inl [simp]: "pbind (Inl e) f = Inl e"
  by (simp add: pbind_def)

lemma first_key_Some:
  "first_key us = Inr (Some k) \<Longrightarrow>
     \<exists>i s. i < length us \<and> us ! i = PStr s \<and> search_key s = Some k
       \<and> (\<forall>j<i. \<exists>s'. us ! j = PStr s' \<and> search_key s' = None)"
proof (induction us rule: first_key.induct)
  case 1
  then show ?case by simp
next
  case (2 u us)
  show ?case
  proof (cases "search_key u")
    case None
    with 2 obtain i s where i: "i < length us" "us ! i = PStr s" "search_key s = Some k"
        "\<forall>j<i. \<exists>s'. us ! j = PStr s' \<and> search_key s' = None"
      by auto
    have "\<forall>j<Suc i. \<exists>s'. (PStr u # us) ! j = PStr s' \<and> search_key s' = None"
      using i(4) None by (auto simp: less_Suc_eq_0_disj)
    with i(1-3) show ?thesis
      by (intro exI[of _ "Suc i"] exI[of _ s]) simp
  next
    case (Some k')
    with 2 have "k' = k" by simp
    with Some show ?thesis by (intro exI[of _ 0] exI[of _ u]) simp
  qed
qed simp_all

lemma first_key_None:
  "first_key us = Inr None \<Longrightarrow> \<forall>u\<in>set us. \<exists>s. u = PStr s \<and> search_key s = None"
  by (induction us rule: first_key.induct) (auto split: option.splits)

lemma parse_item_uris:
  assumes "parse_item idata = Inr ci"
  shows "\<exists>us. py_get idata ''uris'' (PList []) = Inr (uris ci) \<and> py_iter (uris ci) = Inr us
           \<and> first_key us = Inr (item_key ci)"
  using assms unfolding parse_item_def pbind_Inr_iff
  by (elim exE conjE) (auto simp: sum.inject)

lemma chomp_cases: "u = chomp u \<or> u = chomp u @ [CHR 0x0A]"
proof (cases "u \<noteq> [] \<and> last u = CHR 0x0A")
  case True
  then have "butlast u @ [CHR 0x0A] = u" using append_butlast_last_id[of u] by simp
  with True show ?thesis by (simp add: chomp_def)
next
  case False
  then show ?thesis by (auto simp: chomp_def)
qed

lemma key_at_end_Some:
  assumes "key_at_end v = Some k"
  shows "k \<noteq> [] \<and> list_all is_alnum k \<and> suffix (''/items/'' @ k) v"
proof -
  from assms have k: "k = rev (takeWhile is_alnum (rev v))" "k \<noteq> []"
      and p: "suffix ''/items/'' (rev (dropWhile is_alnum (rev v)))"
    by (auto simp: key_at_end_def Let_def split: if_splits)
  have "list_all is_alnum (takeWhile is_alnum (rev v))" by (rule list_all_takeWhile)
  then have a: "list_all is_alnum k" unfolding k by (simp add: list_all_iff)
  have "rev v = takeWhile is_alnum (rev v) @ dropWhile is_alnum (rev v)" by simp
  then have "rev (rev v) = rev (takeWhile is_alnum (rev v) @ dropWhile is_alnum (rev v))"
    by (simp only:)
  then have v: "v = rev (dropWhile is_alnum (rev v)) @ k" unfolding k by (simp only: rev_rev_ident rev_append)
  from p obtain q where "rev (dropWhile is_alnum (rev v)) = q @ ''/items/''" by (auto simp: suffix_def)
  with v have "v = q @ ''/items/'' @ k" by simp
  then have "suffix (''/items/'' @ k) v" by (simp add: suffix_def)
  with k(2) a show ?thesis by blast
qed

lemma key_at_end_run:
  assumes "k \<noteq> []" "list_all is_alnum k"
  shows "key_at_end (p @ ''/items/'' @ k) = Some k"
proof -
  from assms have rk: "list_all is_alnum (rev k)" by (simp add: list_all_iff)
  have e: "rev (p @ ''/items/'' @ k) = rev k @ (CHR ''/'' # rev (p @ ''/items''))" by simp
  have t: "takeWhile is_alnum (rev k @ (CHR ''/'' # rev (p @ ''/items''))) = rev k"
    by (rule takeWhile_run[OF rk]) (simp add: not_alnum_slash)
  have d: "dropWhile is_alnum (rev k @ (CHR ''/'' # rev (p @ ''/items''))) = CHR ''/'' # rev (p @ ''/items'')"
    by (rule dropWhile_run[OF rk]) (simp add: not_alnum_slash)
  show ?thesis unfolding key_at_end_def e t d using assms(1) by (simp add: suffix_def)
qed

lemma search_key_eq: "search_key u = key_at_end (chomp u)"
proof (cases "search_key u")
  case (Some k)
  then have t: "trailing_key u k" by (rule search_key_Some)
  then have k: "k \<noteq> []" "list_all is_alnum k" by (auto simp: trailing_key_def)
  from t consider p where "u = p @ ''/items/'' @ k" | p where "u = p @ ''/items/'' @ k @ [CHR 0x0A]"
    by (auto simp: trailing_key_def suffix_def)
  then have "\<exists>p. chomp u = p @ ''/items/'' @ k"
  proof cases
    case 1
    from k have "is_alnum (last k)" by (simp add: list_all_iff)
    moreover from 1 k have "last u = last k" by simp
    ultimately have "last u \<noteq> CHR 0x0A" using not_alnum_slash(2) by metis
    then have "chomp u = u" by (simp add: chomp_def)
    with 1 show ?thesis by auto
  next
    case 2
    then have "chomp u = p @ ''/items/'' @ k" by (simp add: chomp_def butlast_append)
    then show ?thesis by auto
  qed
  then obtain p where "chomp u = p @ ''/items/'' @ k" by blast
  with key_at_end_run[OF k, of p] Some show ?thesis by simp
next
  case None
  show ?thesis
  proof (cases "key_at_end (chomp u)")
    case (Some k)
    from key_at_end_Some[OF Some] have k: "k \<noteq> []" "list_all is_alnum k"
      and s: "suffix (''/items/'' @ k) (chomp u)" by auto
    from s obtain q where q: "chomp u = q @ ''/items/'' @ k" by (auto simp: suffix_def)
    from chomp_cases[of u] have "trailing_key u k"
    proof
      assume "u = chomp u"
      with q have "u = q @ ''/items/'' @ k" by simp
      with k show ?thesis by (simp add: trailing_key_def suffix_def)
    next
      assume "u = chomp u @ [CHR 0x0A]"
      with q have "u = q @ ''/items/'' @ k @ [CHR 0x0A]" by simp
      then have "suffix (''/items/'' @ k @ [CHR 0x0A]) u" unfolding suffix_def by blast
      with k show ?thesis by (simp add: trailing_key_def)
    qed
    from search_key_found[OF this] None show ?thesis by simp
  qed (simp add: None)
qed

text \<open>
  C5, amended: the key of a parsed item is taken from the first URI, in the order of the
  list, that ends with \<^verbatim>\<open>/items/\<close> and a non-empty alphanumeric segment, where a single
  newline ending the URI is disregarded; the key is that segment. It is null exactly when
  no URI of the list has this form, in particular when the list is empty. The key is never
  anything else.
\<close>

theorem item_key_first_matching_uri:
  assumes "parse_item idata = Inr ci"
  shows "\<exists>us. py_get idata ''uris'' (PList []) = Inr (uris ci) \<and> py_iter (uris ci) = Inr us \<and>
     (case item_key ci of
        None \<Rightarrow> \<forall>u\<in>set us. \<exists>s. u = PStr s \<and> key_at_end (chomp s) = None
      | Some k \<Rightarrow>
          \<exists>i s. i < length us \<and> us ! i = PStr s \<and> key_at_end (chomp s) = Some k
            \<and> (\<forall>j<i. \<exists>s'. us ! j = PStr s' \<and> key_at_end (chomp s') = None))"
proof -
  from parse_item_uris[OF assms] obtain us where
    us: "py_get idata ''uris'' (PList []) = Inr (uris ci)" "py_iter (uris ci) = Inr us"
      "first_key us = Inr (item_key ci)" by blast
  show ?thesis
  proof (cases "item_key ci")
    case None
    with us(3) first_key_None[of us] have "\<forall>u\<in>set us. \<exists>s. u = PStr s \<and> key_at_end (chomp s) = None"
      by (simp add: search_key_eq)
    with us None show ?thesis by auto
  next
    case (Some k)
    with us(3) first_key_Some[of us k] have
      "\<exists>i s. i < length us \<and> us ! i = PStr s \<and> key_at_end (chomp s) = Some k
            \<and> (\<forall>j<i. \<exists>s'. us ! j = PStr s' \<and> key_at_end (chomp s') = None)"
      by (simp add: search_key_eq)
    with us Some show ?thesis by auto
  qed
qed

text \<open>
  C5, the amended statement at an item with three URIs, of which the second and the third
  carry a key: the key is the one of the second.
\<close>

theorem item_key_first_matching_uri_witness:
  "parse_item ex_uris_item = Inr ex_uris_parsed \<and>
   (\<exists>us. py_get ex_uris_item ''uris'' (PList []) = Inr (uris ex_uris_parsed)
      \<and> py_iter (uris ex_uris_parsed) = Inr us \<and>
     (case item_key ex_uris_parsed of
        None \<Rightarrow> \<forall>u\<in>set us. \<exists>s. u = PStr s \<and> key_at_end (chomp s) = None
      | Some k \<Rightarrow>
          \<exists>i s. i < length us \<and> us ! i = PStr s \<and> key_at_end (chomp s) = Some k
            \<and> (\<forall>j<i. \<exists>s'. us ! j = PStr s' \<and> key_at_end (chomp s') = None)))"
proof -
  have h: "parse_item ex_uris_item = Inr ex_uris_parsed" by code_simp
  show ?thesis using h item_key_first_matching_uri[OF h] by (rule conjI)
qed

text \<open>
  C5, as stated, at a URI that ends with a newline: \<^verbatim>\<open>/items/<alnum>\<close> does not stand at the end
  of the string, so the claim gives a null key, but \<^verbatim>\<open>$\<close> matches before the final newline and
  the parser sets the key.
\<close>

theorem item_key_newline_counterexample:
  "key_at_end ex_newline_uri = None
   \<and> map_sum id item_key (parse_item (PDict [(''uris'', PList [PStr ex_newline_uri])]))
       = Inr (Some ''ABCD2345'')"
  by code_simp

section \<open>The year of a parsed item\<close>

text \<open>
  C9, at a payload whose only date is the raw string \<^verbatim>\<open>May 2020\<close>: the year of the parsed
  item is the first four characters of that string, \<^verbatim>\<open>May\<close> and a space, not four digits.
\<close>

theorem year_from_raw_date_example:
  "map_sum id (map_option (\<lambda>c. map year (items c))) (from_field_code json_loads ex_date_field 0)
     = Inr (Some [PStr ''May ''])"
  by code_simp

section \<open>The citation parser: what it returns\<close>












section \<open>The field-code extractor\<close>

lemma extract_loop_append:
  "extract_loop loads st (xs @ ys) =
     (case extract_loop loads st xs of Inl e \<Rightarrow> Inl e | Inr st' \<Rightarrow> extract_loop loads st' ys)"
  by (induction xs arbitrary: st) (auto split: sum.splits)

lemma extract_step_end_outside:
  "field_end el \<Longrightarrow> \<not> in_field st \<Longrightarrow> extract_step loads st el = Inr st"
  by (simp add: extract_step_def field_end_def Let_def)

lemma extract_step_begin:
  "field_begin el \<Longrightarrow>
     extract_step loads st el = Inr (st\<lparr>in_field := True, current_field := []\<rparr>)"
  by (simp add: extract_step_def field_begin_def Let_def)

lemma extract_step_no_end:
  assumes "\<not> field_end el"
  shows "\<exists>st'. extract_step loads st el = Inr st' \<and> citations st' = citations st"
proof (cases "elem_tag el = w_name ''fldChar''")
  case True
  with assms have "map_of (elem_attrib el) (w_name ''fldCharType'') \<noteq> Some ''end''"
    by (simp add: field_end_def)
  with True show ?thesis by (simp add: extract_step_def Let_def)
next
  case False
  then show ?thesis by (simp add: extract_step_def split: option.splits)
qed

lemma extract_loop_no_end:
  "\<forall>e\<in>set ys. \<not> field_end e \<Longrightarrow>
     \<exists>st'. extract_loop loads st ys = Inr st' \<and> citations st' = citations st"
proof (induction ys arbitrary: st)
  case Nil
  then show ?case by simp
next
  case (Cons y ys)
  then have "\<not> field_end y" by simp
  from extract_step_no_end[OF this] obtain st1 where
    s1: "extract_step loads st y = Inr st1" "citations st1 = citations st" by blast
  from Cons obtain st2 where "extract_loop loads st1 ys = Inr st2" "citations st2 = citations st1"
    by fastforce
  with s1 show ?case by simp
qed

text \<open>
  C6: the extractor tolerates malformed field structure. A field-end marker met outside a
  field leaves the whole state as it is: nothing is emitted and nothing fails. A field-begin
  marker never fails and empties the buffer, whatever had been accumulated. A field-begin
  that no field-end follows before the end of the document contributes nothing: the
  citations extracted, or the exception raised, are those of the elements before it.
\<close>

theorem extractor_tolerates_malformed_structure:
  "(field_end el \<and> \<not> in_field st \<longrightarrow> extract_step loads st el = Inr st)
   \<and> (field_begin el \<longrightarrow>
        extract_step loads st el = Inr (st\<lparr>in_field := True, current_field := []\<rparr>))
   \<and> (field_begin b \<and> (\<forall>e\<in>set ys. \<not> field_end e) \<longrightarrow>
        extract_citations loads (xs @ b # ys) = extract_citations loads xs)"
proof (intro conjI impI)
  assume "field_end el \<and> \<not> in_field st"
  then show "extract_step loads st el = Inr st" by (simp add: extract_step_end_outside)
next
  assume "field_begin el"
  then show "extract_step loads st el = Inr (st\<lparr>in_field := True, current_field := []\<rparr>)"
    by (rule extract_step_begin)
next
  assume a: "field_begin b \<and> (\<forall>e\<in>set ys. \<not> field_end e)"
  show "extract_citations loads (xs @ b # ys) = extract_citations loads xs"
  proof (cases "extract_loop loads extract_init xs")
    case (Inl e)
    then show ?thesis by (simp add: extract_citations_def extract_loop_append)
  next
    case (Inr st1)
    from a extract_loop_no_end[of ys loads "st1\<lparr>in_field := True, current_field := []\<rparr>"]
    obtain st2 where "extract_loop loads (st1\<lparr>in_field := True, current_field := []\<rparr>) ys = Inr st2"
      "citations st2 = citations st1" by auto
    with Inr a show ?thesis
      by (simp add: extract_citations_def extract_loop_append extract_step_begin)
  qed
qed

text \<open>
  C6 at a document that opens with a stray field-end, holds one complete citation field and
  ends inside an unterminated field.
\<close>

theorem extractor_tolerates_malformed_structure_witness:
  "field_end ex_end \<and> \<not> in_field extract_init
   \<and> extract_step json_loads extract_init ex_end = Inr extract_init
   \<and> field_begin ex_begin
   \<and> extract_step json_loads extract_init ex_begin
       = Inr (extract_init\<lparr>in_field := True, current_field := []\<rparr>)
   \<and> \<not> field_end (ex_instr ex_field)
   \<and> extract_citations json_loads
        ([ex_end, ex_begin, ex_instr ex_field, ex_end] @ ex_begin # [ex_instr ex_field])
       = extract_citations json_loads [ex_end, ex_begin, ex_instr ex_field, ex_end]"
proof -
  have h: "field_end ex_end \<and> \<not> in_field extract_init" "field_begin ex_begin"
    "\<not> field_end (ex_instr ex_field)"
    by (simp_all add: field_end_def field_begin_def ex_end_def ex_begin_def ex_instr_def
        extract_init_def w_name_def)
  from h(2,3) have h': "field_begin ex_begin \<and> (\<forall>e\<in>set [ex_instr ex_field]. \<not> field_end e)"
    by simp
  from h h' extractor_tolerates_malformed_structure[of ex_end extract_init json_loads]
    extractor_tolerates_malformed_structure[of ex_begin extract_init json_loads ex_begin
      "[ex_instr ex_field]" "[ex_end, ex_begin, ex_instr ex_field, ex_end]"]
  show ?thesis by blast
qed

section \<open>The library index\<close>

text \<open>
  Loading a library whose keys are distinct leaves a key index that files every record under
  its key, and the list of records in the order of the rows.
\<close>

lemma index_item_fields:
  "db_items (index_item db it) = db_items db @ [it]"
  "items_by_key (index_item db it) = (items_by_key db)(key it \<mapsto> it)"
  by (simp_all add: index_item_def Let_def)

lemma index_item_key_index_ok:
  assumes "key_index_ok db" and "\<forall>x\<in>set (db_items db). key x \<noteq> key it"
  shows "key_index_ok (index_item db it)"
  using assms by (simp add: key_index_ok_def list_all_iff index_item_fields)

lemma foldl_index_item_items: "db_items (foldl index_item db rows) = db_items db @ rows"
  by (induction rows arbitrary: db) (simp_all add: index_item_fields)

lemma foldl_index_item_key_index_ok:
  "key_index_ok db \<Longrightarrow> distinct (map key (db_items db @ rows)) \<Longrightarrow>
     key_index_ok (foldl index_item db rows)"
proof (induction rows arbitrary: db)
  case Nil
  then show ?case by simp
next
  case (Cons r rows)
  from Cons.prems(2) have "key r \<notin> key ` set (db_items db)" by auto
  then have "\<forall>x\<in>set (db_items db). key x \<noteq> key r" by (metis imageI)
  with Cons.prems(1) have "key_index_ok (index_item db r)" by (rule index_item_key_index_ok)
  moreover from Cons.prems(2) have "distinct (map key (db_items (index_item db r) @ rows))"
    by (simp add: index_item_fields)
  ultimately show ?case using Cons.IH by simp
qed

lemma load_items_key_index_ok:
  "distinct (map key rows) \<Longrightarrow> key_index_ok (load_items uid luk rows)"
  unfolding load_items_def
  by (rule foldl_index_item_key_index_ok) (simp_all add: key_index_ok_def empty_db_def)

lemma load_items_items: "db_items (load_items uid luk rows) = rows"
  by (simp add: load_items_def foldl_index_item_items empty_db_def)

section \<open>The scan for the best choice\<close>

text \<open>
  With a scorer whose values lie between 0 and 100, as those of the token-set scorer do, the
  scan returns a choice of maximal score.
\<close>

lemma extract_scan_max:
  assumes "\<forall>x\<in>set cs. sc q x \<le> 100"
    and "extract_scan sc q cs i best = Some (c, s, n)"
  shows "(\<forall>b. best = Some b \<longrightarrow> fst (snd b) \<le> s) \<and> (\<forall>x\<in>set cs. 0 \<le> sc q x \<longrightarrow> sc q x \<le> s)"
  using assms
proof (induction cs arbitrary: i best)
  case Nil
  then show ?case by auto
next
  case (Cons x xs)
  define b' where "b' = (if (case best of None \<Rightarrow> 0 \<le> sc q x | Some b \<Rightarrow> fst (snd b) < sc q x)
                         then Some (x, sc q x, i) else best)"
  have step: "extract_scan sc q (x # xs) i best
                = (if sc q x = 100 then b' else extract_scan sc q xs (Suc i) b')"
    by (simp add: Let_def b'_def)
  from Cons.prems(1) have le: "sc q x \<le> 100" "\<forall>y\<in>set xs. sc q y \<le> 100" by auto
  have upd: "\<And>t. b' = Some t \<Longrightarrow> fst (snd t) \<le> s \<Longrightarrow>
      (\<forall>b. best = Some b \<longrightarrow> fst (snd b) \<le> s) \<and> (0 \<le> sc q x \<longrightarrow> sc q x \<le> s)"
    by (cases best) (auto simp: b'_def split: if_splits)
  show ?case
  proof (cases "sc q x = 100")
    case True
    with Cons.prems(2) step have b: "b' = Some (c, s, n)" by simp
    from upd[OF b] have u: "(\<forall>b. best = Some b \<longrightarrow> fst (snd b) \<le> s) \<and> (0 \<le> sc q x \<longrightarrow> sc q x \<le> s)"
      by simp
    with True have "100 \<le> s" by simp
    with le(2) have "\<forall>y\<in>set xs. sc q y \<le> s" by fastforce
    with u show ?thesis by simp
  next
    case False
    with Cons.prems(2) step have "extract_scan sc q xs (Suc i) b' = Some (c, s, n)" by simp
    from Cons.IH[OF le(2) this] have ih: "\<forall>b. b' = Some b \<longrightarrow> fst (snd b) \<le> s"
      "\<forall>y\<in>set xs. 0 \<le> sc q y \<longrightarrow> sc q y \<le> s" by auto
    have "(\<forall>b. best = Some b \<longrightarrow> fst (snd b) \<le> s) \<and> (0 \<le> sc q x \<longrightarrow> sc q x \<le> s)"
    proof (cases b')
      case None
      then have "best = None" "\<not> 0 \<le> sc q x" by (auto simp: b'_def split: if_splits option.splits)
      then show ?thesis by simp
    next
      case (Some t)
      with ih(1) have "fst (snd t) \<le> s" by simp
      from upd[OF Some this] show ?thesis .
    qed
    with ih(2) show ?thesis by simp
  qed
qed

lemma extractOne_best:
  assumes "\<forall>x\<in>set cs. 0 \<le> sc q x \<and> sc q x \<le> 100"
    and "extractOne sc q cs = Some (c, s, n)"
  shows "\<forall>x\<in>set cs. sc q x \<le> s"
  using extract_scan_max[of cs sc q 0 None c s n] assms by (auto simp: extractOne_def)

section \<open>The matching engine\<close>


lemma find_match_no_doi_hit:
  "no_doi_hit db item \<Longrightarrow> find_match sc db item threshold = isbn_stage sc db item threshold"
  by (cases "doi item") (auto simp: find_match_def no_doi_hit_def)


text \<open>
  C2, amended: an item with no DOI hit whose ISBN is a non-empty string whose normalized
  form is a key of the ISBN index gets the record filed under that key, with method
  \<^verbatim>\<open>ISBN\<close> and score 100.
\<close>

theorem find_match_isbn:
  assumes "no_doi_hit db item"
    and "isbn item = PStr b" and "b \<noteq> []"
    and "items_by_isbn db (normalize_isbn b) = Some r"
  shows "find_match sc db item threshold
           = (item\<lparr>match_method := ''ISBN'', match_score := 100\<rparr>, Inr (Some r))"
  using assms by (simp add: find_match_no_doi_hit isbn_stage_def)







lemma titled_items_subset: "set (titled_items db) \<subseteq> set (db_items db)"
  by (auto simp: titled_items_def)

lemma key_index_okD: "key_index_ok db \<Longrightarrow> x \<in> set (db_items db) \<Longrightarrow> items_by_key db (key x) = Some x"
  by (simp add: key_index_ok_def list_all_iff)


lemma shape_none: "res = (item, Inr None) \<Longrightarrow> outcome_shape db item res"
  unfolding outcome_shape_def by blast

lemma shape_raise: "res = (item, Inl e) \<Longrightarrow> outcome_shape db item res"
  unfolding outcome_shape_def by blast

lemma shape_found:
  "res = (item\<lparr>match_method := m, match_score := s\<rparr>, Inr (Some r)) \<Longrightarrow> outcome_shape db item res"
  unfolding outcome_shape_def by blast

lemma shape_key_error:
  "\<not> key_index_ok db \<Longrightarrow> res = (item\<lparr>match_method := m, match_score := s\<rparr>, Inl KeyError)
     \<Longrightarrow> outcome_shape db item res"
  unfolding outcome_shape_def by blast

lemma title_stage_PStr:
  assumes "title item = PStr t" and "t \<noteq> []"
  shows "title_stage sc db item =
     (case extractOne sc t (map (\<lambda>it. the (lib_title it)) (titled_items db)) of
        None \<Rightarrow> (item, Inr None)
      | Some res \<Rightarrow>
          if 90 \<le> fst (snd res) then
            (if snd (snd res) < length (titled_items db) then
               (case items_by_key db (key (titled_items db ! snd (snd res))) of
                  None \<Rightarrow> (item\<lparr>match_method := ''title_only'', match_score := fst (snd res)\<rparr>,
                             Inl KeyError)
                | Some r \<Rightarrow> (item\<lparr>match_method := ''title_only'', match_score := fst (snd res)\<rparr>,
                              Inr (Some r)))
             else (item, Inl IndexError))
          else (item, Inr None))"
  using assms
  by (simp add: title_stage_def Let_def o_def titled_items_def split: option.splits cong: if_cong)

lemma fuzzy_stage_Inr:
  assumes "search_string item = Inr q" and "py_strip q \<noteq> []" and "db_items db \<noteq> []"
  shows "fuzzy_stage sc db item threshold =
     (case extractOne sc q (map lib_search_string (db_items db)) of
        None \<Rightarrow> title_stage sc db item
      | Some res \<Rightarrow>
          if of_int threshold \<le> fst (snd res) then
            (if snd (snd res) < length (db_items db) then
               (case items_by_key db (key (db_items db ! snd (snd res))) of
                  None \<Rightarrow> (item\<lparr>match_method := ''fuzzy'', match_score := fst (snd res)\<rparr>,
                             Inl KeyError)
                | Some r \<Rightarrow> (item\<lparr>match_method := ''fuzzy'', match_score := fst (snd res)\<rparr>,
                              Inr (Some r)))
             else (item, Inl IndexError))
          else title_stage sc db item)"
  using assms
  by (simp add: fuzzy_stage_def Let_def o_def split: option.splits cong: if_cong)

lemma lookup_shape:
  assumes "x \<in> set (db_items db)"
  shows "outcome_shape db item
     (case items_by_key db (key x) of
        None \<Rightarrow> (item\<lparr>match_method := m, match_score := s\<rparr>, Inl KeyError)
      | Some r \<Rightarrow> (item\<lparr>match_method := m, match_score := s\<rparr>, Inr (Some r)))"
proof (cases "items_by_key db (key x)")
  case None
  with assms have "\<not> key_index_ok db" using key_index_okD[of db x] by auto
  with None show ?thesis by (simp add: shape_key_error)
next
  case (Some r)
  then show ?thesis by (simp add: shape_found)
qed

lemma title_stage_shape: "outcome_shape db item (title_stage sc db item)"
proof (cases "truthy (title item)")
  case False
  then show ?thesis by (simp add: title_stage_def shape_none)
next
  case True
  show ?thesis
  proof (cases "title item")
    case (PStr t)
    with True have t: "t \<noteq> []" by simp
    show ?thesis
    proof (cases "extractOne sc t (map (\<lambda>it. the (lib_title it)) (titled_items db))")
      case None
      then show ?thesis by (simp add: title_stage_PStr[OF PStr t] shape_none)
    next
      case (Some res)
      show ?thesis
      proof (cases "90 \<le> fst (snd res)")
        case False
        with Some show ?thesis by (simp add: title_stage_PStr[OF PStr t] shape_none)
      next
        case s90: True
        show ?thesis
        proof (cases "snd (snd res) < length (titled_items db)")
          case False
          with Some s90 show ?thesis by (simp add: title_stage_PStr[OF PStr t] shape_raise)
        next
          case True
          then have "titled_items db ! snd (snd res) \<in> set (db_items db)"
            using titled_items_subset[of db] nth_mem by blast
          from lookup_shape[OF this] Some s90 True show ?thesis
            by (simp add: title_stage_PStr[OF PStr t])
        qed
      qed
    qed
  qed (use True in \<open>simp_all add: title_stage_def shape_raise\<close>)
qed

lemma fuzzy_stage_shape: "outcome_shape db item (fuzzy_stage sc db item threshold)"
proof (cases "search_string item")
  case (Inl e)
  then show ?thesis by (simp add: fuzzy_stage_def shape_raise)
next
  case (Inr q)
  show ?thesis
  proof (cases "py_strip q = [] \<or> db_items db = []")
    case True
    with Inr show ?thesis by (auto simp: fuzzy_stage_def shape_none)
  next
    case False
    then have ne: "py_strip q \<noteq> []" "db_items db \<noteq> []" by auto
    note eq = fuzzy_stage_Inr[OF Inr ne]
    show ?thesis
    proof (cases "extractOne sc q (map lib_search_string (db_items db))")
      case None
      then show ?thesis by (simp add: eq title_stage_shape)
    next
      case (Some res)
      show ?thesis
      proof (cases "of_int threshold \<le> fst (snd res)")
        case False
        with Some show ?thesis by (simp add: eq title_stage_shape)
      next
        case th: True
        show ?thesis
        proof (cases "snd (snd res) < length (db_items db)")
          case False
          with Some th show ?thesis by (simp add: eq shape_raise)
        next
          case True
          then have "db_items db ! snd (snd res) \<in> set (db_items db)" by simp
          from lookup_shape[OF this] Some th True show ?thesis by (simp add: eq)
        qed
      qed
    qed
  qed
qed

lemma isbn_stage_shape: "outcome_shape db item (isbn_stage sc db item threshold)"
proof (cases "truthy (isbn item)")
  case False
  then show ?thesis by (simp add: isbn_stage_def fuzzy_stage_shape)
next
  case True
  show ?thesis
  proof (cases "isbn item")
    case (PStr b)
    with True show ?thesis
      by (cases "items_by_isbn db (normalize_isbn b)")
         (simp_all add: isbn_stage_def fuzzy_stage_shape shape_found)
  qed (use True in \<open>simp_all add: isbn_stage_def shape_raise\<close>)
qed

lemma find_match_shape: "outcome_shape db item (find_match sc db item threshold)"
proof (cases "truthy (doi item)")
  case False
  then show ?thesis by (simp add: find_match_def isbn_stage_shape)
next
  case True
  show ?thesis
  proof (cases "doi item")
    case (PStr d)
    with True show ?thesis
      by (cases "items_by_doi db (normalize_doi d)")
         (simp_all add: find_match_def isbn_stage_shape shape_found)
  qed (use True in \<open>simp_all add: find_match_def shape_raise\<close>)
qed

lemma same_fields: "item\<lparr>match_method := match_method item, match_score := match_score item\<rparr> = item"
  by simp

text \<open>
  C10: when \<^verbatim>\<open>find_match\<close> returns no match, the item is exactly as it was. In every case
  the item differs from what it was in \<^verbatim>\<open>match_method\<close> and \<^verbatim>\<open>match_score\<close> at most, and,
  with a key index that files every record under its key, the two fields are written only
  when a record is returned.
\<close>

theorem find_match_none_leaves_item:
  "(snd (find_match sc db item threshold) = Inr None \<longrightarrow>
      fst (find_match sc db item threshold) = item)
   \<and> (\<exists>m s. fst (find_match sc db item threshold) = item\<lparr>match_method := m, match_score := s\<rparr>)
   \<and> (key_index_ok db \<and> fst (find_match sc db item threshold) \<noteq> item \<longrightarrow>
        (\<exists>r. snd (find_match sc db item threshold) = Inr (Some r)))"
proof -
  from find_match_shape[of db item sc threshold]
  consider "find_match sc db item threshold = (item, Inr None)"
    | e where "find_match sc db item threshold = (item, Inl e)"
    | m s r where "find_match sc db item threshold
        = (item\<lparr>match_method := m, match_score := s\<rparr>, Inr (Some r))"
    | m s where "\<not> key_index_ok db" "find_match sc db item threshold
        = (item\<lparr>match_method := m, match_score := s\<rparr>, Inl KeyError)"
    unfolding outcome_shape_def by blast
  then show ?thesis
  proof cases
    case 1
    have "\<exists>m s. item = item\<lparr>match_method := m, match_score := s\<rparr>"
      using same_fields[of item, symmetric] by blast
    with 1 show ?thesis by simp
  next
    case 2
    have "\<exists>m s. item = item\<lparr>match_method := m, match_score := s\<rparr>"
      using same_fields[of item, symmetric] by blast
    with 2 show ?thesis by simp
  next
    case 3
    then show ?thesis by auto
  next
    case 4
    then show ?thesis by auto
  qed
qed

section \<open>The matching engine on the examples\<close>



text \<open>
  C2, the amended statement at an item with an empty DOI and the ISBN \<^verbatim>\<open>0-306-40615-x\<close>,
  against a library whose record has the ISBN \<^verbatim>\<open>ISBN 0-306-40615-X\<close>.
\<close>

theorem find_match_isbn_witness:
  "find_match ex_scorer ex_db ex_isbn_item 80
     = (ex_isbn_item\<lparr>match_method := ''ISBN'', match_score := 100\<rparr>, Inr (Some ex_book))"
proof -
  have h1: "no_doi_hit ex_db ex_isbn_item" by (simp add: no_doi_hit_def ex_isbn_item_def)
  have h2: "isbn ex_isbn_item = PStr ''0-306-40615-x''" by (simp add: ex_isbn_item_def)
  have h3: "''0-306-40615-x'' \<noteq> []" by simp
  have h4: "items_by_isbn ex_db (normalize_isbn ''0-306-40615-x'') = Some ex_book"
    by code_simp
  from find_match_isbn[OF h1 h2 h3 h4] show ?thesis .
qed

text \<open>
  C2, as stated, at an item whose DOI and ISBN are empty, against a library whose one record
  has the ISBN text \<^verbatim>\<open>n/a\<close>: that text and the empty ISBN both normalize to the empty
  string, so the item's normalized ISBN is a key of the ISBN index; but \<^verbatim>\<open>find_match\<close> skips
  the ISBN lookup for an empty ISBN and returns no match.
\<close>

theorem find_match_empty_isbn_counterexample:
  "isbn ex_blank_item = PStr []
   \<and> items_by_isbn ex_junk_db (normalize_isbn []) = Some ex_junk
   \<and> find_match ex_scorer ex_junk_db ex_blank_item 80 = (ex_blank_item, Inr None)"
  by code_simp


text \<open>
  C10 at an item without DOI, ISBN, title, authors and year, for which no match is returned.
\<close>

theorem find_match_none_leaves_item_witness:
  "snd (find_match ex_scorer ex_junk_db ex_blank_item 80) = Inr None
   \<and> fst (find_match ex_scorer ex_junk_db ex_blank_item 80) = ex_blank_item"
proof -
  have h: "snd (find_match ex_scorer ex_junk_db ex_blank_item 80) = Inr None"
    by code_simp
  with find_match_none_leaves_item[of ex_scorer ex_junk_db ex_blank_item 80]
  show ?thesis by blast
qed

section \<open>The identifier rewriter\<close>










end
